theory Spec2Isabelle
  imports Main "HOL-Library.AList"
begin

section \<open>Configuration snapshot and the enablement filter\<close>

text \<open>
  \<^verbatim>\<open>config.enabledTools\<close> and \<^verbatim>\<open>config.disabledTools\<close> are arrays of tool names,
  \<^verbatim>\<open>config.documentSupport\<close> is the string compared with \<^verbatim>\<open>'true'\<close> in
  \<^verbatim>\<open>documentModule\<close>.
\<close>

record config =
  enabledTools :: "string list"
  disabledTools :: "string list"
  documentSupport :: string

text \<open>
  \<^verbatim>\<open>isToolEnabled\<close> of server.ts: \<^verbatim>\<open>xs.length > 0\<close> is \<open>xs \<noteq> []\<close>,
  \<^verbatim>\<open>xs.includes(n)\<close> is \<open>n \<in> set xs\<close>.
\<close>

definition isToolEnabled :: "config \<Rightarrow> string \<Rightarrow> bool" where
  "isToolEnabled cfg toolName =
     (if length (enabledTools cfg) > 0 then toolName \<in> set (enabledTools cfg)
      else if length (disabledTools cfg) > 0 then toolName \<notin> set (disabledTools cfg)
      else True)"

section \<open>Descriptor values\<close>

text \<open>
  The descriptors are untyped (\<^verbatim>\<open>any\<close>) object literals. A value is modelled as the
  data a literal can hold. \<open>JUndefined\<close> is JavaScript's \<^verbatim>\<open>undefined\<close>, which is also
  what reading a missing property yields. An object is the list of its own enumerable
  entries, in the order of their creation; a well-formed object has pairwise distinct
  keys. (JavaScript enumerates the integer-like keys of an object before the others; the
  statements below that describe the entries of a result speak of their set, not of
  positions.) Prototypes are not modelled: every object is a plain one. Numbers are the
  integer literals; the code under study only tests a number for being zero.
\<close>

datatype json =
    JUndefined
  | JNull
  | JBool bool
  | JNum int
  | JStr string
  | JArr "json list"
  | JObj "(string \<times> json) list"

text \<open>Truthiness, as tested by \<^verbatim>\<open>!schema\<close>, \<^verbatim>\<open>value && ...\<close> and \<^verbatim>\<open>a || b\<close>.\<close>

fun truthy :: "json \<Rightarrow> bool" where
  "truthy JUndefined = False"
| "truthy JNull = False"
| "truthy (JBool b) = b"
| "truthy (JNum n) = (n \<noteq> 0)"
| "truthy (JStr s) = (s \<noteq> [])"
| "truthy (JArr xs) = True"
| "truthy (JObj kvs) = True"

text \<open>\<^verbatim>\<open>typeof v === 'object'\<close>: true of objects, arrays and \<^verbatim>\<open>null\<close>.\<close>

fun typeof_object :: "json \<Rightarrow> bool" where
  "typeof_object JNull = True"
| "typeof_object (JArr xs) = True"
| "typeof_object (JObj kvs) = True"
| "typeof_object v = False"

text \<open>\<^verbatim>\<open>a || b\<close> and \<^verbatim>\<open>a ?? b\<close>.\<close>

definition or_else :: "json \<Rightarrow> json \<Rightarrow> json" where
  "or_else a b = (if truthy a then a else b)"

definition coalesce :: "json \<Rightarrow> json \<Rightarrow> json" where
  "coalesce a b = (if a = JUndefined \<or> a = JNull then b else a)"

text \<open>The decimal numeral of an array index, the key under which an element is listed.\<close>

fun index_key :: "nat \<Rightarrow> string" where
  "index_key n =
     (if n < 10 then [''0123456789'' ! n]
      else index_key (n div 10) @ [''0123456789'' ! (n mod 10)])"

declare index_key.simps [simp del]

text \<open>
  The own enumerable string-keyed entries of a value: what \<^verbatim>\<open>Object.entries(v)\<close> lists,
  what \<^verbatim>\<open>Object.keys(v)\<close> counts and what the spread \<^verbatim>\<open>{...v}\<close> copies. Primitives
  other than strings have none.
\<close>

fun own_entries :: "json \<Rightarrow> (string \<times> json) list" where
  "own_entries (JObj kvs) = kvs"
| "own_entries (JArr xs) = zip (map index_key [0..<length xs]) xs"
| "own_entries (JStr s) = zip (map index_key [0..<length s]) (map (\<lambda>c. JStr [c]) s)"
| "own_entries v = []"

text \<open>
  Reading a property, \<^verbatim>\<open>v.k\<close>, of a key that is not inherited (the code reads only
  \<^verbatim>\<open>properties\<close> and \<^verbatim>\<open>description\<close>): the value of the own entry, or
  \<^verbatim>\<open>undefined\<close>.
\<close>

definition get_prop :: "json \<Rightarrow> string \<Rightarrow> json" where
  "get_prop v k = (case map_of (own_entries v) k of Some x \<Rightarrow> x | None \<Rightarrow> JUndefined)"

text \<open>\<^verbatim>\<open>k in v\<close>, for a key that is not inherited: whether \<open>v\<close> has the entry.\<close>

definition in_op :: "string \<Rightarrow> json \<Rightarrow> bool" where
  "in_op k v = (k \<in> set (map fst (own_entries v)))"

text \<open>The keys of a value are pairwise distinct: every object and array is so.\<close>

definition distinct_keys :: "json \<Rightarrow> bool" where
  "distinct_keys v = distinct (map fst (own_entries v))"

text \<open>
  An object literal is built left to right: assigning a key that is already there
  replaces its value in place, a new key is added at the end (\<open>AList.update\<close>).
  \<open>spread acc v\<close> is the literal \<^verbatim>\<open>{ <acc>, ...v }\<close>.
\<close>

definition spread :: "(string \<times> json) list \<Rightarrow> json \<Rightarrow> (string \<times> json) list" where
  "spread acc v = fold (\<lambda>(k, x) a. AList.update k x a) (own_entries v) acc"

section \<open>The metadata enhancer\<close>

text \<open>
  \<^verbatim>\<open>formatTitleFromName\<close>: split at \<^verbatim>\<open>_\<close> and \<^verbatim>\<open>-\<close>, drop the empty segments,
  upper-case the first character of each, join with a space. Characters are ASCII.
\<close>

fun split_on :: "(char \<Rightarrow> bool) \<Rightarrow> string \<Rightarrow> string list" where
  "split_on p [] = [[]]"
| "split_on p (c # cs) =
     (if p c then [] # split_on p cs
      else (case split_on p cs of [] \<Rightarrow> [[c]] | s # ss \<Rightarrow> (c # s) # ss))"

definition toUpperCase :: "char \<Rightarrow> char" where
  "toUpperCase c =
     (case map_of (zip ''abcdefghijklmnopqrstuvwxyz'' ''ABCDEFGHIJKLMNOPQRSTUVWXYZ'') c of
        Some u \<Rightarrow> u
      | None \<Rightarrow> c)"

definition capitalize :: "string \<Rightarrow> string" where
  "capitalize segment = map toUpperCase (take 1 segment) @ drop 1 segment"

fun join :: "string \<Rightarrow> string list \<Rightarrow> string" where
  "join sep [] = []"
| "join sep [s] = s"
| "join sep (s # ss) = s @ sep @ join sep ss"

definition formatTitleFromName :: "string \<Rightarrow> string" where
  "formatTitleFromName nm =
     join '' ''
       (map capitalize
          (filter (\<lambda>segment. segment \<noteq> [])
             (split_on (\<lambda>c. c = CHR ''_'' \<or> c = CHR ''-'') nm)))"

text \<open>\<^verbatim>\<open>key.replace(/_/g, ' ')\<close>.\<close>

definition replace_underscores :: "string \<Rightarrow> string" where
  "replace_underscores key = map (\<lambda>c. if c = CHR ''_'' then CHR '' '' else c) key"

text \<open>
  The callback of the \<^verbatim>\<open>reduce\<close> in \<^verbatim>\<open>enhanceSchemaWithDescriptions\<close> assigns
  \<^verbatim>\<open>acc[key]\<close> the value computed here.
\<close>

definition enhanceProperty :: "string \<Rightarrow> json \<Rightarrow> json" where
  "enhanceProperty key val =
     (if truthy val \<and> typeof_object val \<and> \<not> in_op ''description'' val
      then JObj (spread [(''description'', JStr (''Value for '' @ replace_underscores key))] val)
      else val)"

text \<open>
  The assignment \<^verbatim>\<open>acc[key] = v\<close> on the plain object \<^verbatim>\<open>acc\<close>. The key
  \<^verbatim>\<open>__proto__\<close> names the inherited accessor of \<^verbatim>\<open>Object.prototype\<close>: assigning it
  sets the prototype of \<^verbatim>\<open>acc\<close> (or does nothing, for a primitive) and creates no
  own entry. Every other key is created or overwritten. (A spread defines its entries
  and so keeps an own \<^verbatim>\<open>__proto__\<close> key.)
\<close>

definition assign :: "string \<Rightarrow> json \<Rightarrow> (string \<times> json) list \<Rightarrow> (string \<times> json) list" where
  "assign key v acc = (if key = ''__proto__'' then acc else AList.update key v acc)"

definition enhanceProperties :: "(string \<times> json) list \<Rightarrow> (string \<times> json) list" where
  "enhanceProperties entries =
     fold (\<lambda>(key, val) acc. assign key (enhanceProperty key val) acc) entries []"

text \<open>\<^verbatim>\<open>const properties = schema.properties || {}\<close>.\<close>

definition properties_of :: "json \<Rightarrow> json" where
  "properties_of schema = or_else (get_prop schema ''properties'') (JObj [])"

definition enhanceSchemaWithDescriptions :: "json \<Rightarrow> string \<Rightarrow> json" where
  "enhanceSchemaWithDescriptions schema ttl =
     (if \<not> truthy schema \<or> \<not> typeof_object schema then schema
      else
        let properties = properties_of schema;
            enhancedProperties = JObj (enhanceProperties (own_entries properties))
        in JObj
             (AList.update ''properties''
                (if length (own_entries properties) \<noteq> 0 then enhancedProperties
                 else properties)
                (spread
                   [(''description'',
                     coalesce (get_prop schema ''description'') (JStr (ttl @ '' parameters'')))]
                   schema)))"

text \<open>
  The behavioural annotations of a descriptor, typed as the protocol library declares
  them: the title a string, the hints booleans. \<open>None\<close> is a key that is absent. The keys
  the enhancer does not name are carried in \<open>otherAnnotations\<close>.
\<close>

record tool_annotations =
  title :: "string option"
  readOnlyHint :: "bool option"
  destructiveHint :: "bool option"
  idempotentHint :: "bool option"
  openWorldHint :: "bool option"
  otherAnnotations :: "(string \<times> json) list"

text \<open>
  A tool descriptor. \<open>None\<close> is a description or an annotations object that is absent;
  a missing input schema is \<open>JUndefined\<close>. The fields the enhancer does not name live in
  the extension part of the record, which a record update keeps, as the spread
  \<^verbatim>\<open>{...tool, ...}\<close> does.
\<close>

record tool =
  name :: string
  description :: "string option"
  inputSchema :: json
  annotations :: "tool_annotations option"

text \<open>
  The regular expression
  \<^verbatim>\<open>/^(get_|list_|find_|resolve_|call_clickup_api|get_workspace_hierarchy)/\<close> is anchored
  at the start only: it accepts a name that starts with one of the alternatives.
\<close>

definition starts_with :: "string \<Rightarrow> string \<Rightarrow> bool" where
  "starts_with s p = (take (length p) s = p)"

definition readOnlyPattern :: "string list" where
  "readOnlyPattern =
     [''get_'', ''list_'', ''find_'', ''resolve_'', ''call_clickup_api'',
      ''get_workspace_hierarchy'']"

definition isReadOnly :: "string \<Rightarrow> bool" where
  "isReadOnly nm = list_ex (starts_with nm) readOnlyPattern"

text \<open>\<^verbatim>\<open>tool.annotations?.key\<close>, for a key \<open>sel\<close> of the annotations.\<close>

definition annotation_of :: "'a tool_scheme \<Rightarrow> (tool_annotations \<Rightarrow> 'b option) \<Rightarrow> 'b option" where
  "annotation_of t sel = (case annotations t of None \<Rightarrow> None | Some a \<Rightarrow> sel a)"

text \<open>
  The literal \<^verbatim>\<open>{ <defaults>, ...tool.annotations, title: ... }\<close>: a key present in
  \<^verbatim>\<open>tool.annotations\<close> replaces the default written before it, and the other keys of
  \<^verbatim>\<open>tool.annotations\<close> are copied.
\<close>

definition explicit_or :: "'a option \<Rightarrow> 'a \<Rightarrow> 'a option" where
  "explicit_or given dflt = (case given of Some v \<Rightarrow> Some v | None \<Rightarrow> Some dflt)"

definition enhanceAnnotations :: "'a tool_scheme \<Rightarrow> string \<Rightarrow> tool_annotations" where
  "enhanceAnnotations t toolTitle =
     \<lparr>title = explicit_or (annotation_of t title) toolTitle,
      readOnlyHint = explicit_or (annotation_of t readOnlyHint) (isReadOnly (name t)),
      destructiveHint = explicit_or (annotation_of t destructiveHint) (\<not> isReadOnly (name t)),
      idempotentHint = explicit_or (annotation_of t idempotentHint) (isReadOnly (name t)),
      openWorldHint =
        explicit_or (annotation_of t openWorldHint) (name t = ''call_clickup_api''),
      otherAnnotations =
        (case annotations t of None \<Rightarrow> [] | Some a \<Rightarrow> otherAnnotations a)\<rparr>"

definition enhanceToolMetadata :: "'a tool_scheme \<Rightarrow> 'a tool_scheme" where
  "enhanceToolMetadata t =
     (let toolTitle = (case annotation_of t title of
                         Some explicit \<Rightarrow> explicit
                       | None \<Rightarrow> formatTitleFromName (name t))
      in t\<lparr>description :=
             Some (case description t of Some d \<Rightarrow> d | None \<Rightarrow> toolTitle @ '' tool''),
           annotations := Some (enhanceAnnotations t toolTitle),
           inputSchema := enhanceSchemaWithDescriptions (inputSchema t) toolTitle\<rparr>)"

section \<open>The dispatcher\<close>

text \<open>
  The handler functions imported by server.ts. Their bodies live in the tool modules; the
  dispatcher only calls them.
\<close>

datatype handler =
    HandleGetWorkspaceHierarchy
  | HandleCreateTask
  | HandleUpdateTask
  | HandleMoveTask
  | HandleDuplicateTask
  | HandleGetTask
  | HandleDeleteTask
  | HandleGetTaskComments
  | HandleCreateTaskComment
  | HandleAttachTaskFile
  | HandleCreateBulkTasks
  | HandleUpdateBulkTasks
  | HandleMoveBulkTasks
  | HandleDeleteBulkTasks
  | HandleGetWorkspaceTasks
  | HandleCreateList
  | HandleCreateListInFolder
  | HandleGetList
  | HandleUpdateList
  | HandleDeleteList
  | HandleCreateFolder
  | HandleGetFolder
  | HandleUpdateFolder
  | HandleDeleteFolder
  | HandleGetSpaceTags
  | HandleAddTagToTask
  | HandleRemoveTagFromTask
  | HandleGetTaskTimeEntries
  | HandleStartTimeTracking
  | HandleStopTimeTracking
  | HandleAddTimeEntry
  | HandleDeleteTimeEntry
  | HandleGetCurrentTimeEntry
  | HandleAddTaskDependency
  | HandleRemoveTaskDependency
  | HandleGetTaskDependencies
  | HandleAddBulkDependencies
  | HandleCreateDocument
  | HandleGetDocument
  | HandleListDocuments
  | HandleListDocumentPages
  | HandleGetDocumentPages
  | HandleCreateDocumentPage
  | HandleUpdateDocumentPage
  | HandleGetWorkspaceMembers
  | HandleFindMemberByName
  | HandleResolveAssignees
  | HandleCallClickUpApi

text \<open>
  The \<^verbatim>\<open>switch (name)\<close> of the CallTool handler, as the table of its \<^verbatim>\<open>case\<close> labels
  in source order; a name without a label takes the \<^verbatim>\<open>default\<close> branch.
\<close>

definition switch_table :: "(string \<times> handler) list" where
  "switch_table =
     [(''get_workspace_hierarchy'', HandleGetWorkspaceHierarchy),
      (''create_task'', HandleCreateTask),
      (''update_task'', HandleUpdateTask),
      (''move_task'', HandleMoveTask),
      (''duplicate_task'', HandleDuplicateTask),
      (''get_task'', HandleGetTask),
      (''delete_task'', HandleDeleteTask),
      (''get_task_comments'', HandleGetTaskComments),
      (''create_task_comment'', HandleCreateTaskComment),
      (''attach_task_file'', HandleAttachTaskFile),
      (''create_bulk_tasks'', HandleCreateBulkTasks),
      (''update_bulk_tasks'', HandleUpdateBulkTasks),
      (''move_bulk_tasks'', HandleMoveBulkTasks),
      (''delete_bulk_tasks'', HandleDeleteBulkTasks),
      (''get_workspace_tasks'', HandleGetWorkspaceTasks),
      (''create_list'', HandleCreateList),
      (''create_list_in_folder'', HandleCreateListInFolder),
      (''get_list'', HandleGetList),
      (''update_list'', HandleUpdateList),
      (''delete_list'', HandleDeleteList),
      (''create_folder'', HandleCreateFolder),
      (''get_folder'', HandleGetFolder),
      (''update_folder'', HandleUpdateFolder),
      (''delete_folder'', HandleDeleteFolder),
      (''get_space_tags'', HandleGetSpaceTags),
      (''add_tag_to_task'', HandleAddTagToTask),
      (''remove_tag_from_task'', HandleRemoveTagFromTask),
      (''get_task_time_entries'', HandleGetTaskTimeEntries),
      (''start_time_tracking'', HandleStartTimeTracking),
      (''stop_time_tracking'', HandleStopTimeTracking),
      (''add_time_entry'', HandleAddTimeEntry),
      (''delete_time_entry'', HandleDeleteTimeEntry),
      (''get_current_time_entry'', HandleGetCurrentTimeEntry),
      (''add_task_dependency'', HandleAddTaskDependency),
      (''remove_task_dependency'', HandleRemoveTaskDependency),
      (''get_task_dependencies'', HandleGetTaskDependencies),
      (''add_bulk_dependencies'', HandleAddBulkDependencies),
      (''create_document'', HandleCreateDocument),
      (''get_document'', HandleGetDocument),
      (''list_documents'', HandleListDocuments),
      (''list_document_pages'', HandleListDocumentPages),
      (''get_document_pages'', HandleGetDocumentPages),
      (''create_document_page'', HandleCreateDocumentPage),
      (''update_document_page'', HandleUpdateDocumentPage),
      (''get_workspace_members'', HandleGetWorkspaceMembers),
      (''find_member_by_name'', HandleFindMemberByName),
      (''resolve_assignees'', HandleResolveAssignees),
      (''call_clickup_api'', HandleCallClickUpApi)]"

text \<open>
  \<^verbatim>\<open>handleGetWorkspaceHierarchy()\<close> and \<^verbatim>\<open>handleGetWorkspaceMembers()\<close> are called
  without arguments, every other handler with \<^verbatim>\<open>params\<close>.
\<close>

definition arguments_for :: "handler \<Rightarrow> json \<Rightarrow> json list" where
  "arguments_for h params =
     (if h = HandleGetWorkspaceHierarchy \<or> h = HandleGetWorkspaceMembers then []
      else [params])"

text \<open>
  A raised condition: the \<^verbatim>\<open>name\<close> discriminator and the \<^verbatim>\<open>message\<close> text, each
  \<open>None\<close> when the thrown value has no such property (an \<^verbatim>\<open>Error\<close> has both).
  What a \<^verbatim>\<open>throw\<close> or a rejection carries is such a condition, or \<^verbatim>\<open>null\<close> or
  \<^verbatim>\<open>undefined\<close>, of which no property can be read.
\<close>

record raised =
  cond_name :: "string option"
  cond_message :: "string option"

datatype thrown = Nullish | Condition raised

text \<open>The text of \<^verbatim>\<open>${err.message}\<close> in a template.\<close>

definition message_text :: "raised \<Rightarrow> string" where
  "message_text err = (case cond_message err of Some m \<Rightarrow> m | None \<Rightarrow> ''undefined'')"

text \<open>
  What a call of a collaborator does. \<open>Throws\<close>: the call itself throws, before it
  returns. \<open>Fulfils\<close>: it returns a value, or a promise that is fulfilled with it.
  \<open>Rejects\<close>: it returns a promise that is rejected; this is how an
  \<^verbatim>\<open>async function\<close> signals every failure of its body.
\<close>

datatype outcome = Throws thrown | Fulfils json | Rejects thrown

text \<open>
  A handler binding: given its arguments and the state of the world outside the core
  (the backend), the outcome of the call and the world it leaves.
\<close>

type_synonym 'w handlers = "handler \<Rightarrow> json list \<Rightarrow> 'w \<Rightarrow> outcome \<times> 'w"

text \<open>
  How the promise of the CallTool handler is rejected: with one of the object literals
  \<^verbatim>\<open>{ code, message }\<close> thrown by the handler, with a thrown value that did not pass
  through its \<^verbatim>\<open>catch\<close> block, or with the \<^verbatim>\<open>TypeError\<close> that the \<^verbatim>\<open>catch\<close> block
  itself raises when it reads \<^verbatim>\<open>err.name\<close> of \<^verbatim>\<open>null\<close> or \<^verbatim>\<open>undefined\<close>.
\<close>

datatype rejection = ProtocolError int string | Uncaught thrown | TypeErrorInCatch

datatype level = Debug | Info | Warn | Error

text \<open>What a request does besides answering: lines sent to the logger, handlers called.\<close>

datatype event = Log level string | Invoke handler "json list"

definition apostrophe :: char where
  "apostrophe = CHR 0x27"

text \<open>
  The \<^verbatim>\<open>catch (err)\<close> block of the CallTool handler.
\<close>

fun catch_block :: "string \<Rightarrow> thrown \<Rightarrow> rejection" where
  "catch_block nm Nullish = TypeErrorInCatch"
| "catch_block nm (Condition err) =
     (if cond_name err = Some ''UnknownToolError''
      then ProtocolError (- 32601) (''Method not found: '' @ nm)
      else if cond_name err = Some ''ValidationError''
      then ProtocolError (- 32602)
             (''Invalid params for tool '' @ nm @ '': '' @ message_text err)
      else ProtocolError (- 32000)
             (''Error executing tool '' @ nm @ '': '' @ message_text err))"

text \<open>
  The CallTool request handler. The result is the settlement of the promise the handler
  returns (\<open>Inl\<close>: rejected), the world after the call and the events in order.

  The \<^verbatim>\<open>try\<close> block returns the value of the handler call without awaiting it. A
  condition thrown while the call is evaluated, and the one thrown by the
  \<^verbatim>\<open>default\<close> branch, reach the \<^verbatim>\<open>catch\<close> block. A promise returned by the handler
  leaves the \<^verbatim>\<open>try\<close> block as a value, and the promise of the CallTool handler is
  settled as that promise is.
\<close>

definition callTool ::
  "config \<Rightarrow> 'w handlers \<Rightarrow> string \<Rightarrow> json \<Rightarrow> 'w \<Rightarrow> (rejection + json) \<times> 'w \<times> event list"
where
  "callTool cfg run nm params w =
     (let received = [Log Info (''Received CallTool request for tool: '' @ nm)] in
      if \<not> isToolEnabled cfg nm then
        (let reason =
               (if length (enabledTools cfg) > 0
                then ''Tool '' @ [apostrophe] @ nm @ [apostrophe]
                       @ '' is not in the enabled tools list.''
                else ''Tool '' @ [apostrophe] @ nm @ [apostrophe] @ '' is disabled.'')
         in (Inl (ProtocolError (- 32601) reason), w,
             received @ [Log Warn (''Tool execution blocked: '' @ reason)]))
      else
        (case map_of switch_table nm of
           None \<Rightarrow>
             (let error = Condition \<lparr>cond_name = Some ''UnknownToolError'',
                                     cond_message = Some (''Unknown tool: '' @ nm)\<rparr>
              in (Inl (catch_block nm error), w,
                  received @ [Log Error (''Unknown tool requested: '' @ nm),
                              Log Error (''Error executing tool: '' @ nm)]))
         | Some h \<Rightarrow>
             (case run h (arguments_for h params) w of
                (Throws err, w') \<Rightarrow>
                  (Inl (catch_block nm err), w',
                   received @ [Invoke h (arguments_for h params),
                               Log Error (''Error executing tool: '' @ nm)])
              | (Fulfils v, w') \<Rightarrow>
                  (Inr v, w', received @ [Invoke h (arguments_for h params)])
              | (Rejects err, w') \<Rightarrow>
                  (Inl (Uncaught err), w', received @ [Invoke h (arguments_for h params)]))))"

text \<open>The handlers that an invocation called, in order.\<close>

definition invoked :: "event list \<Rightarrow> (handler \<times> json list) list" where
  "invoked evs = concat (map (\<lambda>e. case e of Invoke h args \<Rightarrow> [(h, args)] | Log l m \<Rightarrow> []) evs)"

text \<open>\<^verbatim>\<open>haystack.includes(needle)\<close> on strings.\<close>

fun str_includes :: "string \<Rightarrow> string \<Rightarrow> bool" where
  "str_includes [] needle = (needle = [])"
| "str_includes (c # cs) needle = (starts_with (c # cs) needle \<or> str_includes cs needle)"

section \<open>The discovery path\<close>



section \<open>Cache prewarm and server configuration\<close>

text \<open>
  The task cache \<^verbatim>\<open>TaskService._taskCache\<close>, which the task handlers read for their
  look-ups by name (\<open>None\<close> while the property is not defined).
\<close>

record task_cache =
  tasks :: json
  lastFetch :: int
  cacheTTL :: int

text \<open>
  \<^verbatim>\<open>TaskService.prewarmCaches\<close> defines the cache when it is missing, then writes
  \<^verbatim>\<open>cache.tasks\<close> and \<^verbatim>\<open>cache.lastFetch = Date.now()\<close>.
\<close>

definition store_tasks :: "json \<Rightarrow> int \<Rightarrow> task_cache option \<Rightarrow> task_cache option" where
  "store_tasks ts now cache =
     (case cache of
        None \<Rightarrow> Some \<lparr>tasks = ts, lastFetch = now, cacheTTL = 60000\<rparr>
      | Some c \<Rightarrow> Some (c\<lparr>tasks := ts, lastFetch := now\<rparr>))"

text \<open>
  Effects on the process: a line sent to a \<^verbatim>\<open>Logger\<close>, a call of the services'
  \<^verbatim>\<open>logOperation(operation, status)\<close>, and the store of the fetched tasks into the task
  cache at a time of the clock.
\<close>

datatype effect = Logged level string | Operation string string | CacheStored json int

fun cache_after :: "effect \<Rightarrow> task_cache option \<Rightarrow> task_cache option" where
  "cache_after (CacheStored ts now) cache = store_tasks ts now cache"
| "cache_after (Logged l msg) cache = cache"
| "cache_after (Operation operation status) cache = cache"

text \<open>How a \<^verbatim>\<open>Promise<void>\<close> is settled.\<close>

datatype settlement = Fulfilled | Rejected thrown

text \<open>
  An \<^verbatim>\<open>async\<close> function runs up to its first \<^verbatim>\<open>await\<close> of a pending promise during the
  call and the rest in a later turn of the event loop, after its caller has gone on. Its
  model gives the effects of the first part, the effects of the rest, and the settlement
  of the promise it returns. It has no way to throw into its caller.

  \<^verbatim>\<open>TaskService.prewarmCaches\<close>: the parameters are what
  \<^verbatim>\<open>this.getWorkspaceTasks(...)\<close> does and the clock. The \<^verbatim>\<open>await\<close> stands inside the
  \<^verbatim>\<open>try\<close> block, so the \<^verbatim>\<open>catch\<close> block receives a thrown value, a rejection, the
  \<^verbatim>\<open>TypeError\<close> of \<^verbatim>\<open>'tasks' in response\<close> on a response that is not an object, and
  that of \<^verbatim>\<open>tasks.length\<close> on \<^verbatim>\<open>null\<close> or \<^verbatim>\<open>undefined\<close>, which is raised after
  the cache has been written.
\<close>

definition task_prewarmCaches ::
  "outcome \<Rightarrow> int \<Rightarrow> effect list \<times> effect list \<times> settlement"
where
  "task_prewarmCaches getWorkspaceTasks now =
     (case getWorkspaceTasks of
        Throws e \<Rightarrow>
          ([Operation ''prewarmCaches'' ''starting'', Operation ''prewarmCaches'' ''failed''],
           [], Fulfilled)
      | Rejects e \<Rightarrow>
          ([Operation ''prewarmCaches'' ''starting''],
           [Operation ''prewarmCaches'' ''failed''], Fulfilled)
      | Fulfils response \<Rightarrow>
          ([Operation ''prewarmCaches'' ''starting''],
           (if truthy response \<and> typeof_object response
            then
              (let found = (if in_op ''tasks'' response then get_prop response ''tasks''
                            else JArr [])
               in if found = JUndefined \<or> found = JNull
                  then [CacheStored found now, Operation ''prewarmCaches'' ''failed'']
                  else [CacheStored found now, Operation ''prewarmCaches'' ''completed''])
            else [Operation ''prewarmCaches'' ''failed'']),
           Fulfilled))"

text \<open>
  The collaborators of the prewarm: \<^verbatim>\<open>workspaceService.prewarmCaches()\<close>, whose class
  is outside the core, \<^verbatim>\<open>getWorkspaceTasks\<close> of the task service, and the value of
  \<^verbatim>\<open>Date.now()\<close> when the cache is written.
\<close>

record prewarm_env =
  workspacePrewarm :: outcome
  workspaceTasks :: outcome
  clock :: int

text \<open>
  The body of the immediately invoked \<^verbatim>\<open>async\<close> arrow function of
  \<^verbatim>\<open>prewarmClickUpCaches\<close>. When the call of the workspace service throws, the array
  literal is abandoned and the promise is rejected; otherwise \<^verbatim>\<open>Promise.allSettled\<close>
  waits for both promises and is fulfilled whatever they do.
\<close>

definition prewarm_body :: "prewarm_env \<Rightarrow> effect list \<times> effect list \<times> settlement" where
  "prewarm_body env =
     (case workspacePrewarm env of
        Throws e \<Rightarrow>
          ([Logged Info ''Starting background ClickUp cache prewarm''], [], Rejected e)
      | _ \<Rightarrow>
          (case task_prewarmCaches (workspaceTasks env) (clock env) of
             (now, later, p) \<Rightarrow>
               (Logged Info ''Starting background ClickUp cache prewarm'' # now,
                later @ [Logged Info ''Completed ClickUp cache prewarm''],
                Fulfilled)))"

text \<open>
  The module-level state: \<^verbatim>\<open>isServerConfigured\<close> of server.ts, \<^verbatim>\<open>prewarmPromise\<close> of
  the shared services module (\<open>None\<close> for \<^verbatim>\<open>null\<close>; a promise is represented by the way
  it is settled), the calls of \<^verbatim>\<open>server.setRequestHandler\<close> made on the exported
  \<^verbatim>\<open>server\<close> in order, the task cache, the effects performed so far, and the effects
  of the continuations that are scheduled and have not run yet.
\<close>

datatype request_schema =
    ListToolsRequestSchema
  | ListResourcesRequestSchema
  | CallToolRequestSchema
  | ListPromptsRequestSchema
  | GetPromptRequestSchema

record server_state =
  isServerConfigured :: bool
  prewarmPromise :: "settlement option"
  registered :: "request_schema list"
  taskCache :: "task_cache option"
  performed :: "effect list"
  scheduled :: "effect list"

definition initial_state :: server_state where
  "initial_state =
     \<lparr>isServerConfigured = False, prewarmPromise = None, registered = [],
      taskCache = None, performed = [], scheduled = []\<rparr>"

definition prewarmClickUpCaches :: "prewarm_env \<Rightarrow> server_state \<Rightarrow> settlement \<times> server_state" where
  "prewarmClickUpCaches env st =
     (case prewarmPromise st of
        Some p \<Rightarrow> (p, st)
      | None \<Rightarrow>
          (case prewarm_body env of
             (now, later, p) \<Rightarrow>
               (p, st\<lparr>prewarmPromise := Some p,
                      performed := performed st @ now,
                      scheduled := scheduled st @ later\<rparr>)))"

definition logger :: "level \<Rightarrow> string \<Rightarrow> server_state \<Rightarrow> server_state" where
  "logger l msg st = st\<lparr>performed := performed st @ [Logged l msg]\<rparr>"

definition setRequestHandler :: "request_schema \<Rightarrow> server_state \<Rightarrow> server_state" where
  "setRequestHandler schema st = st\<lparr>registered := registered st @ [schema]\<rparr>"

text \<open>
  \<^verbatim>\<open>configureServer\<close>. The value it returns is the exported \<^verbatim>\<open>server\<close>, whose handler
  registrations are the \<open>registered\<close> component of the state. The promise of the prewarm
  is not awaited: \<^verbatim>\<open>.catch\<close> schedules the warning for the case that it is rejected.
\<close>

definition configureServer :: "prewarm_env \<Rightarrow> server_state \<Rightarrow> server_state" where
  "configureServer env st =
     (if isServerConfigured st
      then logger Debug ''Server already configured - skipping duplicate handler registration'' st
      else
        (case prewarmClickUpCaches env
                (logger Info ''Registering server request handlers''
                   (st\<lparr>isServerConfigured := True\<rparr>)) of
           (p, st') \<Rightarrow>
             (setRequestHandler GetPromptRequestSchema
               (setRequestHandler ListPromptsRequestSchema
                 (setRequestHandler CallToolRequestSchema
                   (logger Info ''Registering tool handlers''
                     (setRequestHandler ListResourcesRequestSchema
                       (setRequestHandler ListToolsRequestSchema
                         (case p of
                            Fulfilled \<Rightarrow> st'
                          | Rejected e \<Rightarrow>
                              st'\<lparr>scheduled :=
                                    scheduled st' @ [Logged Warn ''Cache prewarm failed'']\<rparr>)))))))))"

text \<open>
  A later turn of the event loop: the scheduled continuations run, and their stores
  reach the task cache.
\<close>

definition run_scheduled :: "server_state \<Rightarrow> server_state" where
  "run_scheduled st =
     st\<lparr>performed := performed st @ scheduled st,
        scheduled := [],
        taskCache := fold cache_after (scheduled st) (taskCache st)\<rparr>"

text \<open>
  The requests of a client, and the answer of the handler registered for a request. A
  request whose schema has no registered handler is answered by the protocol library
  (\<open>NoHandler\<close>). The world that the tool handlers act on is the task cache of the
  process together with the world outside it.
\<close>

datatype request = ListTools | ListResources | CallTool string json | ListPrompts | GetPrompt




text \<open>The protocol handlers that one configuration registers.\<close>

definition protocol_handlers :: "request_schema list" where
  "protocol_handlers =
     [ListToolsRequestSchema, ListResourcesRequestSchema, CallToolRequestSchema,
      ListPromptsRequestSchema, GetPromptRequestSchema]"

text \<open>What can happen to the module state: a call of \<^verbatim>\<open>configureServer\<close>, a later turn.\<close>

datatype action = Configure prewarm_env | Turn

fun perform :: "action \<Rightarrow> server_state \<Rightarrow> server_state" where
  "perform (Configure env) st = configureServer env st"
| "perform Turn st = run_scheduled st"

section \<open>Properties of the enablement filter\<close>

text \<open>
  Claim C1. For every tool name and configuration: when the allow-list is non-empty the
  tool is enabled exactly when it is a member of the allow-list, whatever the deny-list
  holds; otherwise, when the deny-list is non-empty, exactly when it is not a member of
  the deny-list; otherwise it is enabled.
\<close>

theorem isToolEnabled_precedence:
  "(enabledTools cfg \<noteq> [] \<longrightarrow> (isToolEnabled cfg n \<longleftrightarrow> n \<in> set (enabledTools cfg)))
   \<and> (enabledTools cfg = [] \<and> disabledTools cfg \<noteq> [] \<longrightarrow>
        (isToolEnabled cfg n \<longleftrightarrow> n \<notin> set (disabledTools cfg)))
   \<and> (enabledTools cfg = [] \<and> disabledTools cfg = [] \<longrightarrow> isToolEnabled cfg n)"
  by (simp add: isToolEnabled_def)

theorem isToolEnabled_precedence_witness:
  "isToolEnabled \<lparr>enabledTools = [''get_task''], disabledTools = [''get_task''],
       documentSupport = ''false''\<rparr> ''get_task''
   \<and> \<not> isToolEnabled \<lparr>enabledTools = [''get_task''], disabledTools = [],
       documentSupport = ''false''\<rparr> ''create_task''
   \<and> \<not> isToolEnabled \<lparr>enabledTools = [], disabledTools = [''delete_task''],
       documentSupport = ''false''\<rparr> ''delete_task''
   \<and> isToolEnabled \<lparr>enabledTools = [], disabledTools = [''delete_task''],
       documentSupport = ''false''\<rparr> ''get_task''
   \<and> isToolEnabled \<lparr>enabledTools = [], disabledTools = [],
       documentSupport = ''false''\<rparr> ''anything''"
  using isToolEnabled_precedence
          [of "\<lparr>enabledTools = [''get_task''], disabledTools = [''get_task''],
                documentSupport = ''false''\<rparr>" "''get_task''"]
        isToolEnabled_precedence
          [of "\<lparr>enabledTools = [''get_task''], disabledTools = [],
                documentSupport = ''false''\<rparr>" "''create_task''"]
        isToolEnabled_precedence
          [of "\<lparr>enabledTools = [], disabledTools = [''delete_task''],
                documentSupport = ''false''\<rparr>" "''delete_task''"]
        isToolEnabled_precedence
          [of "\<lparr>enabledTools = [], disabledTools = [''delete_task''],
                documentSupport = ''false''\<rparr>" "''get_task''"]
        isToolEnabled_precedence
          [of "\<lparr>enabledTools = [], disabledTools = [],
                documentSupport = ''false''\<rparr>" "''anything''"]
  by simp

section \<open>Objects built by assignment\<close>

text \<open>
  Facts about \<open>AList.update\<close> folded over the entries of a value: the keys it yields,
  that they stay distinct, and the value found under a key.
\<close>

lemma update_fresh: "k \<notin> fst ` set al \<Longrightarrow> AList.update k v al = al @ [(k, v)]"
  by (induct al) auto

lemma fold_update_fresh:
  "distinct (map fst acc @ map fst xs) \<Longrightarrow>
   fold (\<lambda>(k, x) a. AList.update k (f k x) a) xs acc = acc @ map (\<lambda>(k, x). (k, f k x)) xs"
proof (induction xs arbitrary: acc)
  case Nil
  show ?case by simp
next
  case (Cons p xs)
  obtain k x where p: "p = (k, x)" by (cases p)
  from Cons.prems p have fresh: "k \<notin> fst ` set acc" by auto
  from Cons.prems p have "distinct (map fst (acc @ [(k, f k x)]) @ map fst xs)" by auto
  from Cons.IH [OF this] show ?case
    by (simp add: p update_fresh [OF fresh])
qed

lemma fold_update_keys:
  "set (map fst (fold (\<lambda>(k, x) a. AList.update k (f k x) a) xs acc)) =
   set (map fst acc) \<union> set (map fst xs)"
proof (induction xs arbitrary: acc)
  case Nil
  show ?case by simp
next
  case (Cons p xs)
  obtain k x where p: "p = (k, x)" by (cases p)
  have "fst ` set (AList.update k (f k x) acc) = {k} \<union> fst ` set acc"
    by (rule AList.dom_update)
  with Cons.IH [of "AList.update k (f k x) acc"] show ?case
    by (auto simp: p)
qed

lemma fold_update_distinct:
  "distinct (map fst acc) \<Longrightarrow>
   distinct (map fst (fold (\<lambda>(k, x) a. AList.update k (f k x) a) xs acc))"
proof (induction xs arbitrary: acc)
  case Nil
  then show ?case by simp
next
  case (Cons p xs)
  obtain k x where p: "p = (k, x)" by (cases p)
  from Cons.prems have "distinct (map fst (AList.update k (f k x) acc))"
    by (rule AList.distinct_update)
  from Cons.IH [OF this] show ?case by (simp add: p)
qed

lemma fold_update_map_of:
  "map_of (fold (\<lambda>(k, x) a. AList.update k (f k x) a) xs acc) j =
   (case map_of (rev (map (\<lambda>(k, x). (k, f k x)) xs)) j of
      Some y \<Rightarrow> Some y
    | None \<Rightarrow> map_of acc j)"
proof (induction xs arbitrary: acc)
  case Nil
  show ?case by simp
next
  case (Cons p xs)
  obtain k x where p: "p = (k, x)" by (cases p)
  show ?case
    by (simp add: p Cons.IH AList.update_conv' map_add_def split: option.splits)
qed

lemma fold_update_head:
  "\<exists>w' rest. fold (\<lambda>(k, x) a. AList.update k (f k x) a) xs ((k0, w) # acc) = (k0, w') # rest"
proof (induction xs arbitrary: w acc)
  case Nil
  show ?case by simp
next
  case (Cons p xs)
  obtain k x where p: "p = (k, x)" by (cases p)
  show ?case using Cons.IH by (auto simp: p)
qed

lemma fold_update_origin:
  "(k, x) \<in> set (fold (\<lambda>(k, v) a. AList.update k (f k v) a) xs acc) \<Longrightarrow>
   (k, x) \<in> set acc \<or> (\<exists>v. x = f k v)"
proof (induction xs arbitrary: acc)
  case Nil
  then show ?case by simp
next
  case (Cons p xs)
  obtain k' v' where p: "p = (k', v')" by (cases p)
  have sub: "set (AList.update k' (f k' v') acc) \<subseteq> insert (k', f k' v') (set acc)"
    by (induct acc) auto
  from Cons.prems have "(k, x) \<in> set (fold (\<lambda>(k, v) a. AList.update k (f k v) a) xs (AList.update k' (f k' v') acc))"
    by (simp add: p)
  from Cons.IH [OF this] sub show ?case by auto
qed


lemma spread_keys:
  "fst ` set (spread acc v) = fst ` set acc \<union> fst ` set (own_entries v)"
  unfolding spread_def using fold_update_keys [where f = "\<lambda>k x. x"] by simp

lemma spread_distinct: "distinct (map fst acc) \<Longrightarrow> distinct (map fst (spread acc v))"
  unfolding spread_def by (rule fold_update_distinct [where f = "\<lambda>k x. x"])

lemma spread_head: "\<exists>w' rest. spread ((k0, w) # acc) v = (k0, w') # rest"
  unfolding spread_def by (rule fold_update_head [where f = "\<lambda>k x. x"])

lemma spread_map_of:
  "map_of (spread acc v) j =
   (case map_of (rev (own_entries v)) j of Some y \<Rightarrow> Some y | None \<Rightarrow> map_of acc j)"
  unfolding spread_def using fold_update_map_of [where f = "\<lambda>k x. x" and xs = "own_entries v"]
  by simp

lemma fold_assign_filter:
  "fold (\<lambda>(k, x) a. assign k (f k x) a) xs acc =
   fold (\<lambda>(k, x) a. AList.update k (f k x) a) (filter (\<lambda>(k, x). k \<noteq> ''__proto__'') xs) acc"
  by (induction xs arbitrary: acc) (auto simp add: assign_def)

lemma enhanceProperties_filter:
  "enhanceProperties xs =
   fold (\<lambda>(k, x) a. AList.update k (enhanceProperty k x) a)
     (filter (\<lambda>(k, x). k \<noteq> ''__proto__'') xs) []"
  unfolding enhanceProperties_def by (rule fold_assign_filter)

lemma enhanceProperties_keys:
  "fst ` set (enhanceProperties xs) = fst ` set xs - {''__proto__''}"
proof -
  have "fst ` set (enhanceProperties xs) =
        fst ` set (filter (\<lambda>(k, x). k \<noteq> ''__proto__'') xs)"
    unfolding enhanceProperties_filter
    using fold_update_keys [where f = enhanceProperty and acc = "[]"] by simp
  also have "\<dots> = fst ` set xs - {''__proto__''}" by force
  finally show ?thesis .
qed

lemma enhanceProperties_distinct: "distinct (map fst (enhanceProperties xs))"
  unfolding enhanceProperties_filter
  using fold_update_distinct [where f = enhanceProperty and acc = "[]"] by simp

lemma enhanceProperties_map:
  assumes "distinct (map fst xs)"
  shows "enhanceProperties xs =
         map (\<lambda>(k, x). (k, enhanceProperty k x)) (filter (\<lambda>(k, x). k \<noteq> ''__proto__'') xs)"
proof -
  from assms have "distinct (map fst (filter (\<lambda>(k, x). k \<noteq> ''__proto__'') xs))"
    by (rule distinct_map_filter)
  then show ?thesis
    unfolding enhanceProperties_filter
    using fold_update_fresh [where f = enhanceProperty and acc = "[]"] by simp
qed

lemma enhanceProperty_stable:
  "enhanceProperty k' (enhanceProperty k v) = enhanceProperty k v"
  by (simp add: enhanceProperty_def in_op_def spread_keys)

lemma enhanceProperties_idem:
  "enhanceProperties (enhanceProperties xs) = enhanceProperties xs"
proof -
  let ?E = "enhanceProperties xs"
  have stable: "enhanceProperty k x = x" if "(k, x) \<in> set ?E" for k x
  proof -
    from that
      fold_update_origin [where f = enhanceProperty and acc = "[]"
        and xs = "filter (\<lambda>(k, x). k \<noteq> ''__proto__'') xs"]
    obtain v where "x = enhanceProperty k v"
      unfolding enhanceProperties_filter by auto
    then show ?thesis by (simp add: enhanceProperty_stable)
  qed
  have "''__proto__'' \<notin> fst ` set ?E" by (simp add: enhanceProperties_keys)
  then have keep: "filter (\<lambda>(k, x). k \<noteq> ''__proto__'') ?E = ?E"
    by (force simp add: filter_id_conv)
  have "enhanceProperties ?E = map (\<lambda>(k, x). (k, enhanceProperty k x)) ?E"
    using enhanceProperties_map [OF enhanceProperties_distinct, of xs] by (simp add: keep)
  also have "\<dots> = map (\<lambda>p. p) ?E"
    by (rule map_cong) (auto simp: stable)
  finally show ?thesis by simp
qed

lemma fold_update_same_head:
  assumes "distinct (map fst ((k0, v0) # rest))"
  shows "fold (\<lambda>(k, x) a. AList.update k x a) ((k0, v0) # rest) [(k0, w)] = (k0, v0) # rest"
proof -
  from assms have "distinct (map fst [(k0, v0)] @ map fst rest)" by simp
  from fold_update_fresh [where f = "\<lambda>k x. x", OF this] show ?thesis by simp
qed

lemma enhanceSchema_fixed:
  assumes obj: "truthy schema" "typeof_object schema"
  shows "enhanceSchemaWithDescriptions (enhanceSchemaWithDescriptions schema ttl) ttl =
         enhanceSchemaWithDescriptions schema ttl"
proof -
  define P where "P = or_else (get_prop schema ''properties'') (JObj [])"
  define P' where "P' = (if length (own_entries P) \<noteq> 0
                          then JObj (enhanceProperties (own_entries P)) else P)"
  define d0 where "d0 = coalesce (get_prop schema ''description'') (JStr (ttl @ '' parameters''))"
  define B where "B = spread [(''description'', d0)] schema"
  define A where "A = AList.update ''properties'' P' B"
  have out: "enhanceSchemaWithDescriptions schema ttl = JObj A"
    using obj by (simp add: enhanceSchemaWithDescriptions_def properties_of_def Let_def A_def B_def P'_def P_def d0_def)
  have truthyP: "truthy P" by (simp add: P_def or_else_def)
  have truthyP': "truthy P'" using truthyP by (simp add: P'_def)
  obtain dB restB where B: "B = (''description'', dB) # restB"
    unfolding B_def using spread_head by blast
  have distB: "distinct (map fst B)" unfolding B_def by (rule spread_distinct) simp
  have Ahead: "A = (''description'', dB) # AList.update ''properties'' P' restB"
    by (simp add: A_def B)
  have distA: "distinct (map fst A)" unfolding A_def using distB by (rule AList.distinct_update)
  have propsA: "map_of A ''properties'' = Some P'" by (simp add: A_def AList.update_conv')
  have gp: "get_prop (JObj A) ''properties'' = P'" by (simp add: get_prop_def propsA)
  have P2: "or_else (get_prop (JObj A) ''properties'') (JObj []) = P'"
    using truthyP' by (simp add: gp or_else_def)
  have P'': "JObj (enhanceProperties (own_entries P')) = P'" if "own_entries P' \<noteq> []"
  proof (cases "own_entries P = []")
    case True
    with that show ?thesis by (simp add: P'_def)
  next
    case False
    then have "P' = JObj (enhanceProperties (own_entries P))" by (simp add: P'_def)
    then show ?thesis by (simp add: enhanceProperties_idem)
  qed
  have sp: "spread [(''description'', w)] (JObj A) = A" for w
    unfolding spread_def using fold_update_same_head [of "''description''" dB "AList.update ''properties'' P' restB" w] distA
    by (simp add: Ahead)
  have "enhanceSchemaWithDescriptions (JObj A) ttl = JObj (AList.update ''properties'' P' A)"
    by (simp add: enhanceSchemaWithDescriptions_def properties_of_def Let_def P2 P'' sp del: own_entries.simps)
  also have "AList.update ''properties'' P' A = A"
    using propsA by (rule AList.update_triv)
  finally show ?thesis by (simp add: out)
qed

lemma enhanceSchema_idem:
  "enhanceSchemaWithDescriptions (enhanceSchemaWithDescriptions schema ttl) ttl =
   enhanceSchemaWithDescriptions schema ttl"
proof (cases "truthy schema \<and> typeof_object schema")
  case True
  then show ?thesis by (simp add: enhanceSchema_fixed)
next
  case False
  then show ?thesis by (auto simp add: enhanceSchemaWithDescriptions_def)
qed

lemma map_of_rev_distinct: "distinct (map fst xs) \<Longrightarrow> map_of (rev xs) = map_of xs"
proof (induction xs)
  case Nil
  show ?case by simp
next
  case (Cons p xs)
  obtain k v where p: "p = (k, v)" by (cases p)
  from Cons.prems p have fresh: "map_of xs k = None"
    by (simp add: map_of_eq_None_iff)
  from Cons.prems have IH: "map_of (rev xs) = map_of xs" by (simp add: Cons.IH)
  show ?case
    by (rule ext) (simp add: p IH map_add_def fresh split: option.splits)
qed

lemma spread_lookup:
  "distinct_keys v \<Longrightarrow>
   map_of (spread acc v) j =
     (case map_of (own_entries v) j of Some y \<Rightarrow> Some y | None \<Rightarrow> map_of acc j)"
  by (simp add: spread_map_of map_of_rev_distinct distinct_keys_def)

lemma starts_with_append: "starts_with s (p @ q) \<Longrightarrow> starts_with s p"
proof -
  assume "starts_with s (p @ q)"
  then have "take (length p + length q) s = p @ q" by (simp add: starts_with_def)
  then have "take (length p) (take (length p + length q) s) = take (length p) (p @ q)" by simp
  then show ?thesis by (simp add: starts_with_def min_def)
qed

lemma isReadOnly_prefixes:
  "isReadOnly nm \<longleftrightarrow>
     starts_with nm ''get_'' \<or> starts_with nm ''list_'' \<or> starts_with nm ''find_''
     \<or> starts_with nm ''resolve_'' \<or> starts_with nm ''call_clickup_api''"
proof -
  have "starts_with nm ''get_''" if "starts_with nm ''get_workspace_hierarchy''"
    using starts_with_append [of nm "''get_''" "''workspace_hierarchy''"] that by simp
  then show ?thesis by (auto simp add: isReadOnly_def readOnlyPattern_def)
qed

section \<open>Properties of the metadata enhancer\<close>

text \<open>The title derived from a name, and the read-only inference, on the names of the catalog.\<close>

lemma formatTitleFromName_examples:
  "formatTitleFromName ''get_task_comments'' = ''Get Task Comments''"
  "formatTitleFromName ''call_clickup_api'' = ''Call Clickup Api''"
  by (simp_all add: formatTitleFromName_def capitalize_def toUpperCase_def)

lemma isReadOnly_examples:
  "isReadOnly ''get_task''" "\<not> isReadOnly ''create_task''" "isReadOnly ''call_clickup_api''"
  by (simp_all add: isReadOnly_def readOnlyPattern_def starts_with_def)

text \<open>
  Claim C5, as stated, fails. The pattern is anchored at the start only, so a name that
  merely starts with \<^verbatim>\<open>call_clickup_api\<close> is inferred read-only although it has none
  of the four prefixes and equals neither literal.
\<close>

theorem readOnly_inference_counterexample:
  "annotation_of (enhanceToolMetadata
       \<lparr>name = ''call_clickup_api_v2'', description = None, inputSchema = JUndefined,
         annotations = None\<rparr>) readOnlyHint = Some True
   \<and> \<not> (starts_with ''call_clickup_api_v2'' ''get_''
        \<or> starts_with ''call_clickup_api_v2'' ''list_''
        \<or> starts_with ''call_clickup_api_v2'' ''find_''
        \<or> starts_with ''call_clickup_api_v2'' ''resolve_''
        \<or> ''call_clickup_api_v2'' = ''call_clickup_api''
        \<or> ''call_clickup_api_v2'' = ''get_workspace_hierarchy'')"
  by (simp add: enhanceToolMetadata_def Let_def enhanceAnnotations_def annotation_of_def
        explicit_or_def isReadOnly_def readOnlyPattern_def starts_with_def)

text \<open>
  Claim C5, amended. A descriptor is inferred read-only exactly when its name starts with
  one of \<^verbatim>\<open>get_\<close>, \<^verbatim>\<open>list_\<close>, \<^verbatim>\<open>find_\<close>, \<^verbatim>\<open>resolve_\<close> or
  \<^verbatim>\<open>call_clickup_api\<close> (the alternative \<^verbatim>\<open>get_workspace_hierarchy\<close> is covered by
  \<^verbatim>\<open>get_\<close>). The enhanced descriptor carries annotations in which every hint that the
  descriptor gives explicitly is kept, and the others are: read-only and idempotent as
  inferred, destructive the negation, open-world exactly for the name
  \<^verbatim>\<open>call_clickup_api\<close>.
\<close>

theorem enhanceToolMetadata_annotations:
  "(isReadOnly (name d) \<longleftrightarrow>
      starts_with (name d) ''get_'' \<or> starts_with (name d) ''list_''
      \<or> starts_with (name d) ''find_'' \<or> starts_with (name d) ''resolve_''
      \<or> starts_with (name d) ''call_clickup_api'')
   \<and> (\<exists>a. annotations (enhanceToolMetadata d) = Some a
        \<and> readOnlyHint a =
            Some (case annotation_of d readOnlyHint of
                    Some given \<Rightarrow> given | None \<Rightarrow> isReadOnly (name d))
        \<and> destructiveHint a =
            Some (case annotation_of d destructiveHint of
                    Some given \<Rightarrow> given | None \<Rightarrow> \<not> isReadOnly (name d))
        \<and> idempotentHint a =
            Some (case annotation_of d idempotentHint of
                    Some given \<Rightarrow> given | None \<Rightarrow> isReadOnly (name d))
        \<and> openWorldHint a =
            Some (case annotation_of d openWorldHint of
                    Some given \<Rightarrow> given | None \<Rightarrow> name d = ''call_clickup_api''))"
proof -
  have "annotations (enhanceToolMetadata d) =
        Some (enhanceAnnotations d
                (case annotation_of d title of
                   Some explicit \<Rightarrow> explicit
                 | None \<Rightarrow> formatTitleFromName (name d)))"
    by (simp add: enhanceToolMetadata_def Let_def)
  then show ?thesis
    by (simp add: isReadOnly_prefixes enhanceAnnotations_def explicit_or_def
          split: option.splits)
qed

text \<open>The theorem at three descriptors, one with an explicit hint.\<close>

theorem enhanceToolMetadata_annotations_witness:
  "isReadOnly ''get_task'' \<and> \<not> isReadOnly ''create_task''
   \<and> annotations (enhanceToolMetadata
        \<lparr>name = ''delete_task'', description = None, inputSchema = JUndefined,
          annotations = Some \<lparr>title = None, readOnlyHint = None, destructiveHint = None,
             idempotentHint = Some True, openWorldHint = None, otherAnnotations = []\<rparr>\<rparr>)
     = Some \<lparr>title = Some ''Delete Task'', readOnlyHint = Some False,
          destructiveHint = Some True, idempotentHint = Some True,
          openWorldHint = Some False, otherAnnotations = []\<rparr>"
  using enhanceToolMetadata_annotations
          [of "\<lparr>name = ''get_task'', description = None, inputSchema = JUndefined,
                annotations = None\<rparr>"]
        enhanceToolMetadata_annotations
          [of "\<lparr>name = ''create_task'', description = None, inputSchema = JUndefined,
                annotations = None\<rparr>"]
        enhanceToolMetadata_annotations
          [of "\<lparr>name = ''delete_task'', description = None, inputSchema = JUndefined,
                annotations = Some \<lparr>title = None, readOnlyHint = None,
                  destructiveHint = None, idempotentHint = Some True,
                  openWorldHint = None, otherAnnotations = []\<rparr>\<rparr>"]
  by (auto simp add: starts_with_def annotation_of_def enhanceToolMetadata_def Let_def
        enhanceAnnotations_def explicit_or_def formatTitleFromName_def capitalize_def
        toUpperCase_def)

text \<open>
  Claim C6. Enhancing an enhanced descriptor changes nothing: description, annotations
  and input schema, with the injected property descriptions, are those of the first
  enhancement.
\<close>

theorem enhanceToolMetadata_idempotent:
  "enhanceToolMetadata (enhanceToolMetadata d) = enhanceToolMetadata d"
  by (simp add: enhanceToolMetadata_def enhanceAnnotations_def annotation_of_def
       explicit_or_def Let_def enhanceSchema_idem split: option.splits)

text \<open>Reading the enhanced schema: its entries, its \<^verbatim>\<open>properties\<close>, one property.\<close>

lemma map_of_mapped:
  "distinct (map fst xs) \<Longrightarrow> (k, v) \<in> set xs \<Longrightarrow>
   map_of (map (\<lambda>(k, x). (k, f k x)) xs) k = Some (f k v)"
  by (induction xs) (auto simp: rev_image_eqI)


lemma enhanceSchema_object:
  assumes "truthy schema" and "typeof_object schema"
  shows "enhanceSchemaWithDescriptions schema ttl =
         JObj (AList.update ''properties''
                 (if own_entries (properties_of schema) \<noteq> []
                  then JObj (enhanceProperties (own_entries (properties_of schema)))
                  else properties_of schema)
                 (spread [(''description'',
                           coalesce (get_prop schema ''description'')
                             (JStr (ttl @ '' parameters'')))] schema))"
  using assms by (simp add: enhanceSchemaWithDescriptions_def Let_def)

lemma enhanceSchema_properties:
  assumes "truthy schema" and "typeof_object schema"
  shows "get_prop (enhanceSchemaWithDescriptions schema ttl) ''properties'' =
         (if own_entries (properties_of schema) \<noteq> []
          then JObj (enhanceProperties (own_entries (properties_of schema)))
          else properties_of schema)"
  by (simp add: enhanceSchema_object [OF assms] get_prop_def AList.update_conv')

lemma enhanceSchema_other_key:
  assumes "truthy schema" and "typeof_object schema" and "distinct_keys schema"
    and "k \<noteq> ''properties''"
  shows "map_of (own_entries (enhanceSchemaWithDescriptions schema ttl)) k =
         (case map_of (own_entries schema) k of
            Some y \<Rightarrow> Some y
          | None \<Rightarrow>
              (if k = ''description''
               then Some (coalesce (get_prop schema ''description'')
                            (JStr (ttl @ '' parameters'')))
               else None))"
  using assms(3,4)
  by (simp add: enhanceSchema_object [OF assms(1,2)] AList.update_conv' spread_lookup
        split: option.splits)

lemma enhanced_property_lookup:
  assumes "truthy schema" and "typeof_object schema"
    and "distinct_keys (properties_of schema)"
    and "(k, v) \<in> set (own_entries (properties_of schema))"
    and "k \<noteq> ''__proto__''"
  shows "get_prop (get_prop (enhanceSchemaWithDescriptions schema ttl) ''properties'') k =
         enhanceProperty k v"
proof -
  let ?kept = "filter (\<lambda>(k, x). k \<noteq> ''__proto__'') (own_entries (properties_of schema))"
  from assms(4) have ne: "own_entries (properties_of schema) \<noteq> []" by auto
  from assms(3) have d: "distinct (map fst (own_entries (properties_of schema)))"
    by (simp add: distinct_keys_def)
  then have dk: "distinct (map fst ?kept)" by (rule distinct_map_filter)
  from assms(4,5) have mem: "(k, v) \<in> set ?kept" by simp
  have "get_prop (enhanceSchemaWithDescriptions schema ttl) ''properties'' =
        JObj (map (\<lambda>(k, x). (k, enhanceProperty k x)) ?kept)"
    by (simp add: enhanceSchema_properties [OF assms(1,2)] ne enhanceProperties_map [OF d])
  then show ?thesis
    by (simp add: get_prop_def map_of_mapped [OF dk mem])
qed

lemma generated_description:
  assumes "truthy v" and "typeof_object v" and "\<not> in_op ''description'' v"
  shows "get_prop (enhanceProperty k v) ''description'' =
         JStr (''Value for '' @ replace_underscores k)"
proof -
  from assms(3) have "map_of (rev (own_entries v)) ''description'' = None"
    by (simp add: in_op_def map_of_eq_None_iff)
  with assms show ?thesis
    by (simp add: enhanceProperty_def get_prop_def spread_map_of)
qed


lemma enhanceProperty_unchanged:
  "\<not> (truthy v \<and> typeof_object v) \<or> in_op ''description'' v \<Longrightarrow> enhanceProperty k v = v"
  by (auto simp add: enhanceProperty_def)

text \<open>
  Claim C7, as stated, fails. The property \<^verbatim>\<open>archived: true\<close> (a boolean schema) has no
  description, and the enhancer returns it as it is: no description is injected into a
  property whose value is not an object.
\<close>

theorem schema_property_counterexample:
  "\<not> in_op ''description'' (JBool True)
   \<and> get_prop
       (get_prop
          (enhanceSchemaWithDescriptions
             (JObj [(''type'', JStr ''object''),
                    (''properties'', JObj [(''archived'', JBool True)])])
             ''Get Task'')
          ''properties'')
       ''archived'' = JBool True
   \<and> get_prop (JBool True) ''description'' \<noteq> JStr ''Value for archived''"
  by (simp add: in_op_def get_prop_def enhanceSchemaWithDescriptions_def properties_of_def
        or_else_def coalesce_def spread_def enhanceProperties_def enhanceProperty_def
        assign_def Let_def)

text \<open>
  Claim C7, amended. For an object-valued input schema and title, and every property of
  \<^verbatim>\<open>inputSchema.properties\<close> whose key is not \<^verbatim>\<open>__proto__\<close>: a property whose value is an
  object (an array counts as one) without a \<^verbatim>\<open>description\<close> key receives the description
  \<^verbatim>\<open>Value for <key with underscores replaced by spaces>\<close>; a property that has a
  description is returned unchanged; a property whose value is not an object is returned
  unchanged, so it gets no description. The description of the schema is the given one
  when there is one and \<^verbatim>\<open><title> parameters\<close> otherwise; and a missing or non-object
  schema is returned unchanged.
\<close>

theorem enhanceSchema_descriptions:
  assumes "truthy schema" and "typeof_object schema"
    and "distinct_keys schema" and "distinct_keys (properties_of schema)"
  shows
    "(\<forall>(k, v) \<in> set (own_entries (properties_of schema)). k \<noteq> ''__proto__'' \<longrightarrow>
        (truthy v \<and> typeof_object v \<and> \<not> in_op ''description'' v \<longrightarrow>
           get_prop
             (get_prop (get_prop (enhanceSchemaWithDescriptions schema ttl) ''properties'') k)
             ''description'' = JStr (''Value for '' @ replace_underscores k))
        \<and> (in_op ''description'' v \<longrightarrow>
             get_prop (get_prop (enhanceSchemaWithDescriptions schema ttl) ''properties'') k
               = v)
        \<and> (\<not> (truthy v \<and> typeof_object v) \<longrightarrow>
             get_prop (get_prop (enhanceSchemaWithDescriptions schema ttl) ''properties'') k
               = v))
     \<and> get_prop (enhanceSchemaWithDescriptions schema ttl) ''description'' =
         (if in_op ''description'' schema then get_prop schema ''description''
          else JStr (ttl @ '' parameters''))
     \<and> (\<forall>other. \<not> truthy other \<or> \<not> typeof_object other \<longrightarrow>
           enhanceSchemaWithDescriptions other ttl = other)"
proof (intro conjI ballI allI)
  fix p
  assume p: "p \<in> set (own_entries (properties_of schema))"
  obtain k v where kv: "p = (k, v)" by (cases p)
  from p kv have mem: "(k, v) \<in> set (own_entries (properties_of schema))" by simp
  have "(truthy v \<and> typeof_object v \<and> \<not> in_op ''description'' v \<longrightarrow>
           get_prop
             (get_prop (get_prop (enhanceSchemaWithDescriptions schema ttl) ''properties'') k)
             ''description'' = JStr (''Value for '' @ replace_underscores k))
        \<and> (in_op ''description'' v \<longrightarrow>
             get_prop (get_prop (enhanceSchemaWithDescriptions schema ttl) ''properties'') k
               = v)
        \<and> (\<not> (truthy v \<and> typeof_object v) \<longrightarrow>
             get_prop (get_prop (enhanceSchemaWithDescriptions schema ttl) ''properties'') k
               = v)"
    if k: "k \<noteq> ''__proto__''"
  proof -
    note look = enhanced_property_lookup [OF assms(1,2,4) mem k, of ttl]
    show ?thesis
      by (auto simp add: look generated_description enhanceProperty_unchanged)
  qed
  then show "case p of (k, v) \<Rightarrow> k \<noteq> ''__proto__'' \<longrightarrow>
        (truthy v \<and> typeof_object v \<and> \<not> in_op ''description'' v \<longrightarrow>
           get_prop
             (get_prop (get_prop (enhanceSchemaWithDescriptions schema ttl) ''properties'') k)
             ''description'' = JStr (''Value for '' @ replace_underscores k))
        \<and> (in_op ''description'' v \<longrightarrow>
             get_prop (get_prop (enhanceSchemaWithDescriptions schema ttl) ''properties'') k
               = v)
        \<and> (\<not> (truthy v \<and> typeof_object v) \<longrightarrow>
             get_prop (get_prop (enhanceSchemaWithDescriptions schema ttl) ''properties'') k
               = v)"
    by (simp add: kv)
next
  have "map_of (own_entries schema) ''description'' = None" if "\<not> in_op ''description'' schema"
    using that by (simp add: in_op_def map_of_eq_None_iff)
  moreover have "\<exists>y. map_of (own_entries schema) ''description'' = Some y"
    if "in_op ''description'' schema"
    using that by (cases "map_of (own_entries schema) ''description''")
      (simp_all add: in_op_def map_of_eq_None_iff)
  ultimately show "get_prop (enhanceSchemaWithDescriptions schema ttl) ''description'' =
         (if in_op ''description'' schema then get_prop schema ''description''
          else JStr (ttl @ '' parameters''))"
    using enhanceSchema_other_key [OF assms(1,2,3), of "''description''" ttl]
    by (auto simp add: get_prop_def coalesce_def)
next
  fix other
  show "\<not> truthy other \<or> \<not> typeof_object other \<longrightarrow>
           enhanceSchemaWithDescriptions other ttl = other"
    by (auto simp add: enhanceSchemaWithDescriptions_def)
qed


text \<open>
  The theorem at the schema of a tool with three properties: one without a description,
  one described, one a boolean.
\<close>

theorem enhanceSchema_descriptions_witness:
  "get_prop
     (get_prop
        (get_prop (enhanceSchemaWithDescriptions
              (JObj [(''type'', JStr ''object''),
                     (''properties'',
                      JObj [(''task_id'', JObj [(''type'', JStr ''string'')]),
                            (''list_name'',
                             JObj [(''type'', JStr ''string''),
                                   (''description'', JStr ''Name of the list'')]),
                            (''archived'', JBool True)]),
                     (''required'', JArr [JStr ''task_id''])])
              ''Get Task'') ''properties'')
        ''task_id'')
     ''description'' = JStr ''Value for task id''
   \<and> get_prop
        (get_prop (enhanceSchemaWithDescriptions
              (JObj [(''type'', JStr ''object''),
                     (''properties'',
                      JObj [(''task_id'', JObj [(''type'', JStr ''string'')]),
                            (''list_name'',
                             JObj [(''type'', JStr ''string''),
                                   (''description'', JStr ''Name of the list'')]),
                            (''archived'', JBool True)]),
                     (''required'', JArr [JStr ''task_id''])])
              ''Get Task'') ''properties'')
        ''list_name''
      = JObj [(''type'', JStr ''string''), (''description'', JStr ''Name of the list'')]
   \<and> get_prop
        (get_prop (enhanceSchemaWithDescriptions
              (JObj [(''type'', JStr ''object''),
                     (''properties'',
                      JObj [(''task_id'', JObj [(''type'', JStr ''string'')]),
                            (''list_name'',
                             JObj [(''type'', JStr ''string''),
                                   (''description'', JStr ''Name of the list'')]),
                            (''archived'', JBool True)]),
                     (''required'', JArr [JStr ''task_id''])])
              ''Get Task'') ''properties'')
        ''archived'' = JBool True
   \<and> get_prop
        (enhanceSchemaWithDescriptions
              (JObj [(''type'', JStr ''object''),
                     (''properties'',
                      JObj [(''task_id'', JObj [(''type'', JStr ''string'')]),
                            (''list_name'',
                             JObj [(''type'', JStr ''string''),
                                   (''description'', JStr ''Name of the list'')]),
                            (''archived'', JBool True)]),
                     (''required'', JArr [JStr ''task_id''])])
              ''Get Task'')
        ''description'' = JStr ''Get Task parameters''
   \<and> enhanceSchemaWithDescriptions JUndefined ''Get Task'' = JUndefined
   \<and> enhanceSchemaWithDescriptions (JStr ''object'') ''Get Task'' = JStr ''object''"
proof -
  let ?s = "JObj [(''type'', JStr ''object''),
                     (''properties'',
                      JObj [(''task_id'', JObj [(''type'', JStr ''string'')]),
                            (''list_name'',
                             JObj [(''type'', JStr ''string''),
                                   (''description'', JStr ''Name of the list'')]),
                            (''archived'', JBool True)]),
                     (''required'', JArr [JStr ''task_id''])]"
  have h1: "truthy ?s" and h2: "typeof_object ?s" by simp_all
  have h3: "distinct_keys ?s" by (simp add: distinct_keys_def)
  have entries: "own_entries (properties_of ?s) =
      [(''task_id'', JObj [(''type'', JStr ''string'')]),
       (''list_name'',
        JObj [(''type'', JStr ''string''), (''description'', JStr ''Name of the list'')]),
       (''archived'', JBool True)]"
    by (simp add: properties_of_def or_else_def get_prop_def)
  have h4: "distinct_keys (properties_of ?s)"
    by (simp add: distinct_keys_def entries)
  show ?thesis
    using enhanceSchema_descriptions [OF h1 h2 h3 h4, of "''Get Task''"]
    by (simp add: entries in_op_def replace_underscores_def)
qed





section \<open>Properties of the dispatcher\<close>

text \<open>The three ways through the CallTool handler: blocked, unknown, routed.\<close>

lemma callTool_blocked:
  "\<not> isToolEnabled cfg nm \<Longrightarrow>
   callTool cfg run nm params w =
     (Inl (ProtocolError (- 32601)
             (if enabledTools cfg \<noteq> []
              then ''Tool '' @ [apostrophe] @ nm @ [apostrophe]
                     @ '' is not in the enabled tools list.''
              else ''Tool '' @ [apostrophe] @ nm @ [apostrophe] @ '' is disabled.'')),
      w,
      [Log Info (''Received CallTool request for tool: '' @ nm),
       Log Warn (''Tool execution blocked: '' @
                 (if enabledTools cfg \<noteq> []
                  then ''Tool '' @ [apostrophe] @ nm @ [apostrophe]
                         @ '' is not in the enabled tools list.''
                  else ''Tool '' @ [apostrophe] @ nm @ [apostrophe] @ '' is disabled.''))])"
  by (simp add: callTool_def Let_def)

lemma callTool_unknown:
  "isToolEnabled cfg nm \<Longrightarrow> map_of switch_table nm = None \<Longrightarrow>
   callTool cfg run nm params w =
     (Inl (ProtocolError (- 32601) (''Method not found: '' @ nm)), w,
      [Log Info (''Received CallTool request for tool: '' @ nm),
       Log Error (''Unknown tool requested: '' @ nm),
       Log Error (''Error executing tool: '' @ nm)])"
  by (simp add: callTool_def Let_def)

lemma callTool_routed:
  "isToolEnabled cfg nm \<Longrightarrow> map_of switch_table nm = Some h \<Longrightarrow>
   run h (arguments_for h params) w = (res, w') \<Longrightarrow>
   callTool cfg run nm params w =
     (case res of
        Throws err \<Rightarrow>
          (Inl (catch_block nm err), w',
           [Log Info (''Received CallTool request for tool: '' @ nm),
            Invoke h (arguments_for h params),
            Log Error (''Error executing tool: '' @ nm)])
      | Fulfils v \<Rightarrow>
          (Inr v, w',
           [Log Info (''Received CallTool request for tool: '' @ nm),
            Invoke h (arguments_for h params)])
      | Rejects err \<Rightarrow>
          (Inl (Uncaught err), w',
           [Log Info (''Received CallTool request for tool: '' @ nm),
            Invoke h (arguments_for h params)]))"
  by (simp add: callTool_def Let_def split: outcome.splits)

lemma not_a_real_tool_unrouted: "map_of switch_table ''not_a_real_tool'' = None"
  by (simp add: switch_table_def)

lemma create_task_routed: "map_of switch_table ''create_task'' = Some HandleCreateTask"
  by (simp add: switch_table_def)

text \<open>
  Claim C2, as stated, fails. With both lists empty, the invocation of
  \<^verbatim>\<open>not_a_real_tool\<close> is rejected with code \<open>-32601\<close>, but the \<^verbatim>\<open>catch\<close> block replaces
  the inner condition by a message of its own, which does not contain the text
  \<^verbatim>\<open>Unknown tool: not_a_real_tool\<close>.
\<close>

theorem unknown_tool_message_counterexample:
  "fst (callTool \<lparr>enabledTools = [], disabledTools = [], documentSupport = ''false''\<rparr>
          (\<lambda>h args w. (Fulfils JNull, w)) ''not_a_real_tool'' (JObj []) ())
     = Inl (ProtocolError (- 32601) ''Method not found: not_a_real_tool'')
   \<and> \<not> str_includes ''Method not found: not_a_real_tool'' ''Unknown tool: not_a_real_tool''"
  by (simp add: callTool_unknown isToolEnabled_def not_a_real_tool_unrouted starts_with_def)

text \<open>
  Claim C2, amended. The invocation of an enabled name that has no \<^verbatim>\<open>case\<close> label is
  rejected with the protocol error of code \<open>-32601\<close> and message
  \<^verbatim>\<open>Method not found: <name>\<close>; no handler is called and the world is left as it was.
\<close>

theorem unknown_tool_rejected:
  assumes "isToolEnabled cfg nm" and "map_of switch_table nm = None"
  shows "fst (callTool cfg run nm params w)
           = Inl (ProtocolError (- 32601) (''Method not found: '' @ nm))
         \<and> fst (snd (callTool cfg run nm params w)) = w
         \<and> invoked (snd (snd (callTool cfg run nm params w))) = []"
  by (simp add: callTool_unknown [OF assms] invoked_def)

text \<open>The theorem at \<^verbatim>\<open>not_a_real_tool\<close>, with handlers that would change the world.\<close>

theorem unknown_tool_rejected_witness:
  "fst (callTool \<lparr>enabledTools = [], disabledTools = [], documentSupport = ''false''\<rparr>
          (\<lambda>h args w. (Fulfils JNull, Suc w)) ''not_a_real_tool'' (JObj []) (0::nat))
     = Inl (ProtocolError (- 32601) ''Method not found: not_a_real_tool'')
   \<and> fst (snd (callTool \<lparr>enabledTools = [], disabledTools = [], documentSupport = ''false''\<rparr>
          (\<lambda>h args w. (Fulfils JNull, Suc w)) ''not_a_real_tool'' (JObj []) (0::nat))) = 0
   \<and> invoked (snd (snd (callTool
          \<lparr>enabledTools = [], disabledTools = [], documentSupport = ''false''\<rparr>
          (\<lambda>h args w. (Fulfils JNull, Suc w)) ''not_a_real_tool'' (JObj []) (0::nat)))) = []"
proof -
  have h1: "isToolEnabled \<lparr>enabledTools = [], disabledTools = [], documentSupport = ''false''\<rparr>
              ''not_a_real_tool''"
    by (simp add: isToolEnabled_def)
  show ?thesis
    using unknown_tool_rejected [OF h1 not_a_real_tool_unrouted,
            of "\<lambda>h args w. (Fulfils JNull, Suc w)" "JObj []" "0::nat"]
    by simp
qed

text \<open>
  Claim C3. The invocation of a name that is not enabled is rejected with the protocol
  error of code \<open>-32601\<close> before any handler is called (no handler is invoked and the
  world is unchanged, whatever the handlers would do); the message is
  \<^verbatim>\<open>Tool '<n>' is not in the enabled tools list.\<close> when the allow-list is non-empty and
  \<^verbatim>\<open>Tool '<n>' is disabled.\<close> otherwise.
\<close>

theorem disabled_tool_rejected:
  assumes "\<not> isToolEnabled cfg nm"
  shows "fst (callTool cfg run nm params w)
           = Inl (ProtocolError (- 32601)
                    (if enabledTools cfg \<noteq> []
                     then ''Tool '' @ [CHR 0x27] @ nm @ [CHR 0x27]
                            @ '' is not in the enabled tools list.''
                     else ''Tool '' @ [CHR 0x27] @ nm @ [CHR 0x27] @ '' is disabled.''))
         \<and> fst (snd (callTool cfg run nm params w)) = w
         \<and> invoked (snd (snd (callTool cfg run nm params w))) = []"
  by (simp add: callTool_blocked [OF assms] invoked_def apostrophe_def)

text \<open>
  The theorem for \<^verbatim>\<open>create_task\<close>, once outside a non-empty allow-list and once on the
  deny-list.
\<close>

theorem disabled_tool_rejected_witness:
  "fst (callTool \<lparr>enabledTools = [''get_task''], disabledTools = [],
                  documentSupport = ''false''\<rparr>
          (\<lambda>h args w. (Fulfils JNull, Suc w)) ''create_task'' (JObj []) (0::nat))
     = Inl (ProtocolError (- 32601)
              (''Tool '' @ [CHR 0x27] @ ''create_task'' @ [CHR 0x27]
                 @ '' is not in the enabled tools list.''))
   \<and> fst (snd (callTool \<lparr>enabledTools = [''get_task''], disabledTools = [],
                  documentSupport = ''false''\<rparr>
          (\<lambda>h args w. (Fulfils JNull, Suc w)) ''create_task'' (JObj []) (0::nat))) = 0
   \<and> invoked (snd (snd (callTool \<lparr>enabledTools = [''get_task''], disabledTools = [],
                  documentSupport = ''false''\<rparr>
          (\<lambda>h args w. (Fulfils JNull, Suc w)) ''create_task'' (JObj []) (0::nat)))) = []
   \<and> fst (callTool \<lparr>enabledTools = [], disabledTools = [''create_task''],
                  documentSupport = ''false''\<rparr>
          (\<lambda>h args w. (Fulfils JNull, Suc w)) ''create_task'' (JObj []) (0::nat))
     = Inl (ProtocolError (- 32601)
              (''Tool '' @ [CHR 0x27] @ ''create_task'' @ [CHR 0x27] @ '' is disabled.''))"
proof -
  have h1: "\<not> isToolEnabled \<lparr>enabledTools = [''get_task''], disabledTools = [],
                  documentSupport = ''false''\<rparr> ''create_task''"
    by (simp add: isToolEnabled_def)
  have h2: "\<not> isToolEnabled \<lparr>enabledTools = [], disabledTools = [''create_task''],
                  documentSupport = ''false''\<rparr> ''create_task''"
    by (simp add: isToolEnabled_def)
  show ?thesis
    using disabled_tool_rejected [OF h1, of "\<lambda>h args w. (Fulfils JNull, Suc w)" "JObj []" "0::nat"]
          disabled_tool_rejected [OF h2, of "\<lambda>h args w. (Fulfils JNull, Suc w)" "JObj []" "0::nat"]
    by simp
qed

text \<open>
  The three outcomes of a handler call. A value thrown while the call is evaluated is
  caught and re-wrapped. The promise a handler returns is not awaited inside the
  \<^verbatim>\<open>try\<close> block, so its rejection does not pass through the \<^verbatim>\<open>catch\<close> block.
\<close>

lemma handler_throw_caught:
  assumes "isToolEnabled cfg nm" and "map_of switch_table nm = Some h"
    and "run h (arguments_for h params) w = (Throws err, w')"
  shows "fst (callTool cfg run nm params w) = Inl (catch_block nm err)"
  using assms by (simp add: callTool_def Let_def)

lemma handler_rejection_uncaught:
  assumes "isToolEnabled cfg nm" and "map_of switch_table nm = Some h"
    and "run h (arguments_for h params) w = (Rejects err, w')"
  shows "fst (callTool cfg run nm params w) = Inl (Uncaught err)"
  using assms by (simp add: callTool_def Let_def)

lemma handler_result_returned:
  assumes "isToolEnabled cfg nm" and "map_of switch_table nm = Some h"
    and "run h (arguments_for h params) w = (Fulfils v, w')"
  shows "fst (callTool cfg run nm params w) = Inr v"
  using assms by (simp add: callTool_def Let_def)

lemma call_clickup_api_routed:
  "map_of switch_table ''call_clickup_api'' = Some HandleCallClickUpApi"
  by (simp add: switch_table_def)

text \<open>
  Claim C4 says that the dispatcher answers a handler failure named
  \<^verbatim>\<open>ValidationError\<close> with message \<open>m\<close> by the protocol error of code \<open>-32602\<close> and message
  \<^verbatim>\<open>Invalid params for tool <n>: <m>\<close>, and every other handler failure by code
  \<open>-32000\<close> and \<^verbatim>\<open>Error executing tool <n>: <m>\<close>. The code does not: the handlers are
  \<^verbatim>\<open>async\<close> functions, whose failure is the rejection of the promise they return, and
  that promise leaves the \<^verbatim>\<open>try\<close> block unawaited. With both lists empty, the
  invocation of \<^verbatim>\<open>create_task\<close> whose handler fails with \<^verbatim>\<open>ValidationError\<close> and
  \<^verbatim>\<open>bad input\<close> is rejected with the handler's own condition, and so is the invocation
  of \<^verbatim>\<open>call_clickup_api\<close> without a method, whose handler fails with the service error
  \<^verbatim>\<open>HTTP method is required\<close> (of whatever name); neither is a protocol error.
\<close>

theorem handler_rejection_not_rewrapped:
  "fst (callTool \<lparr>enabledTools = [], disabledTools = [], documentSupport = ''false''\<rparr>
          (\<lambda>h args w.
              (Rejects (Condition \<lparr>cond_name = Some ''ValidationError'',
                                   cond_message = Some ''bad input''\<rparr>), w))
          ''create_task'' (JObj []) ())
     = Inl (Uncaught (Condition \<lparr>cond_name = Some ''ValidationError'',
                                 cond_message = Some ''bad input''\<rparr>))
   \<and> Uncaught (Condition \<lparr>cond_name = Some ''ValidationError'',
                           cond_message = Some ''bad input''\<rparr>)
       \<noteq> ProtocolError (- 32602) ''Invalid params for tool create_task: bad input''
   \<and> fst (callTool \<lparr>enabledTools = [], disabledTools = [], documentSupport = ''false''\<rparr>
          (\<lambda>h args w.
              (Rejects (Condition \<lparr>cond_name = cls,
                                   cond_message = Some ''HTTP method is required''\<rparr>), w))
          ''call_clickup_api'' (JObj []) ())
     = Inl (Uncaught (Condition \<lparr>cond_name = cls,
                                 cond_message = Some ''HTTP method is required''\<rparr>))"
proof -
  have en: "isToolEnabled \<lparr>enabledTools = [], disabledTools = [], documentSupport = ''false''\<rparr>
              nm" for nm
    by (simp add: isToolEnabled_def)
  show ?thesis
    by (simp add: callTool_routed [OF en create_task_routed]
          callTool_routed [OF en call_clickup_api_routed])
qed

section \<open>Properties of server configuration\<close>

text \<open>The first call of \<^verbatim>\<open>configureServer\<close>, a later call, and runs of actions.\<close>

lemma prewarmClickUpCaches_frame:
  assumes "prewarmClickUpCaches env st = (p, st')"
  shows "isServerConfigured st' = isServerConfigured st \<and> registered st' = registered st
         \<and> taskCache st' = taskCache st"
  using assms
  by (auto simp add: prewarmClickUpCaches_def split: option.splits prod.splits)

lemma configureServer_first:
  assumes "\<not> isServerConfigured st"
  shows "isServerConfigured (configureServer env st)
         \<and> registered (configureServer env st) = registered st @ protocol_handlers
         \<and> taskCache (configureServer env st) = taskCache st"
proof -
  obtain p st' where pw:
    "prewarmClickUpCaches env
       (logger Info ''Registering server request handlers'' (st\<lparr>isServerConfigured := True\<rparr>))
     = (p, st')"
    by (cases "prewarmClickUpCaches env
       (logger Info ''Registering server request handlers'' (st\<lparr>isServerConfigured := True\<rparr>))")
  from prewarmClickUpCaches_frame [OF pw]
  have "isServerConfigured st'" and "registered st' = registered st"
    and "taskCache st' = taskCache st"
    by (simp_all add: logger_def)
  with assms pw show ?thesis
    by (simp add: configureServer_def setRequestHandler_def logger_def protocol_handlers_def
          split: settlement.splits)
qed

lemma configureServer_again:
  "isServerConfigured st \<Longrightarrow>
   configureServer env st =
     logger Debug ''Server already configured - skipping duplicate handler registration'' st"
  by (simp add: configureServer_def)

lemma configureServer_keeps_flag:
  "isServerConfigured st \<Longrightarrow> isServerConfigured (configureServer env st)"
  by (simp add: configureServer_again logger_def)

lemma perform_keeps_flag: "isServerConfigured st \<Longrightarrow> isServerConfigured (perform a st)"
  by (cases a) (simp_all add: configureServer_keeps_flag run_scheduled_def)

lemma fold_perform_keeps_flag:
  "isServerConfigured st \<Longrightarrow> isServerConfigured (fold perform acts st)"
  by (induction acts arbitrary: st) (simp_all add: perform_keeps_flag)

lemma perform_configured:
  assumes "isServerConfigured st"
  shows "registered (perform a st) = registered st"
  using assms by (cases a) (simp_all add: configureServer_again logger_def run_scheduled_def)

lemma fold_perform_configured:
  "isServerConfigured st \<Longrightarrow> registered (fold perform acts st) = registered st"
proof (induction acts arbitrary: st)
  case Nil
  show ?case by simp
next
  case (Cons a acts)
  from Cons.prems have "isServerConfigured (perform a st)" by (rule perform_keeps_flag)
  from Cons.IH [OF this] Cons.prems show ?case by (simp add: perform_configured)
qed

lemma fold_perform_registers_once:
  assumes "\<not> isServerConfigured st" and "registered st = []"
    and "Configure env \<in> set acts"
  shows "registered (fold perform acts st) = protocol_handlers
         \<and> isServerConfigured (fold perform acts st)"
  using assms
proof (induction acts arbitrary: st)
  case Nil
  then show ?case by simp
next
  case (Cons a acts)
  show ?case
  proof (cases a)
    case (Configure e)
    from configureServer_first [OF Cons.prems(1), of e] Cons.prems(2)
    have c: "isServerConfigured (perform a st)"
      and r: "registered (perform a st) = protocol_handlers"
      by (simp_all add: Configure)
    from fold_perform_configured [OF c, of acts] fold_perform_keeps_flag [OF c, of acts] r
    show ?thesis by simp
  next
    case Turn
    with Cons.prems have "\<not> isServerConfigured (perform a st)"
      and "registered (perform a st) = []" and "Configure env \<in> set acts"
      by (simp_all add: run_scheduled_def)
    from Cons.IH [OF this] show ?thesis by simp
  qed
qed

text \<open>
  Claim C8. The configured flag is false at the start. A call of \<^verbatim>\<open>configureServer\<close>
  that finds it false sets it and registers the five protocol handlers, each once. A
  call that finds it true changes nothing but the log, to which it adds one line: the
  registrations stay as they are. After any run of calls and later turns that contains a
  configuration, the handlers registered are the five, each once; and once the flag is
  true it stays true.
\<close>

theorem configureServer_idempotent:
  "\<not> isServerConfigured initial_state
   \<and> (\<not> isServerConfigured st \<longrightarrow>
         isServerConfigured (configureServer env st)
         \<and> registered (configureServer env st) = registered st @ protocol_handlers)
   \<and> (isServerConfigured st \<longrightarrow>
         configureServer env st =
           logger Debug ''Server already configured - skipping duplicate handler registration''
             st
         \<and> registered (configureServer env st) = registered st
         \<and> isServerConfigured (configureServer env st))
   \<and> (Configure env \<in> set acts \<longrightarrow>
         registered (fold perform acts initial_state) = protocol_handlers
         \<and> isServerConfigured (fold perform acts initial_state))
   \<and> (isServerConfigured st \<longrightarrow> isServerConfigured (fold perform acts st))
   \<and> distinct protocol_handlers"
proof (intro conjI impI)
  show "\<not> isServerConfigured initial_state" by (simp add: initial_state_def)
next
  assume "\<not> isServerConfigured st"
  from configureServer_first [OF this]
  show "isServerConfigured (configureServer env st)"
    and "registered (configureServer env st) = registered st @ protocol_handlers"
    by simp_all
next
  assume c: "isServerConfigured st"
  then show "configureServer env st =
           logger Debug ''Server already configured - skipping duplicate handler registration''
             st"
    by (rule configureServer_again)
  from c show "registered (configureServer env st) = registered st"
    by (simp add: configureServer_again logger_def)
  from c show "isServerConfigured (configureServer env st)"
    by (rule configureServer_keeps_flag)
next
  assume a: "Configure env \<in> set acts"
  have "\<not> isServerConfigured initial_state" and "registered initial_state = []"
    by (simp_all add: initial_state_def)
  from fold_perform_registers_once [OF this a]
  show "registered (fold perform acts initial_state) = protocol_handlers"
    and "isServerConfigured (fold perform acts initial_state)"
    by simp_all
next
  assume "isServerConfigured st"
  then show "isServerConfigured (fold perform acts st)" by (rule fold_perform_keeps_flag)
next
  show "distinct protocol_handlers" by (simp add: protocol_handlers_def)
qed

text \<open>
  The theorem at a run of two configurations with a turn in between, the first with a
  prewarm that fails.
\<close>

theorem configureServer_idempotent_witness:
  "registered
     (fold perform
        [Configure \<lparr>workspacePrewarm =
                      Throws (Condition \<lparr>cond_name = Some ''TypeError'',
                              cond_message = Some ''prewarmCaches is not a function''\<rparr>),
                    workspaceTasks = Rejects (Condition \<lparr>cond_name = Some ''Error'',
                                               cond_message = Some ''offline''\<rparr>),
                                               clock = 0\<rparr>,
         Turn,
         Configure \<lparr>workspacePrewarm = Fulfils JUndefined,
                    workspaceTasks = Fulfils (JObj [(''tasks'', JArr [])]),
                    clock = 0\<rparr>]
        initial_state)
     = [ListToolsRequestSchema, ListResourcesRequestSchema, CallToolRequestSchema,
        ListPromptsRequestSchema, GetPromptRequestSchema]
   \<and> isServerConfigured
       (fold perform
          [Configure \<lparr>workspacePrewarm =
                        Throws (Condition \<lparr>cond_name = Some ''TypeError'',
                                cond_message = Some ''prewarmCaches is not a function''\<rparr>),
                      workspaceTasks = Rejects (Condition \<lparr>cond_name = Some ''Error'',
                                                 cond_message = Some ''offline''\<rparr>),
                                                 clock = 0\<rparr>,
           Turn,
           Configure \<lparr>workspacePrewarm = Fulfils JUndefined,
                      workspaceTasks = Fulfils (JObj [(''tasks'', JArr [])]),
                    clock = 0\<rparr>]
          initial_state)"
  using configureServer_idempotent
          [of initial_state
              "\<lparr>workspacePrewarm =
                      Throws (Condition \<lparr>cond_name = Some ''TypeError'',
                              cond_message = Some ''prewarmCaches is not a function''\<rparr>),
                    workspaceTasks = Rejects (Condition \<lparr>cond_name = Some ''Error'',
                                               cond_message = Some ''offline''\<rparr>),
                                               clock = 0\<rparr>"
              "[Configure \<lparr>workspacePrewarm =
                      Throws (Condition \<lparr>cond_name = Some ''TypeError'',
                              cond_message = Some ''prewarmCaches is not a function''\<rparr>),
                    workspaceTasks = Rejects (Condition \<lparr>cond_name = Some ''Error'',
                                               cond_message = Some ''offline''\<rparr>),
                                               clock = 0\<rparr>,
                Turn,
                Configure \<lparr>workspacePrewarm = Fulfils JUndefined,
                    workspaceTasks = Fulfils (JObj [(''tasks'', JArr [])]),
                    clock = 0\<rparr>]"]
  by (simp add: protocol_handlers_def)



lemma fold_cache_after_append:
  "fold cache_after (xs @ ys) c = fold cache_after ys (fold cache_after xs c)"
  by simp
















end
